theory Spec2Isabelle
  imports Main "HOL-Library.Word"
begin

unbundle bit_operations_syntax

section \<open>Clang PGO profile export: kernel/pgo/fs.c\<close>

text \<open>
  A shallow embedding of the serialisation code of \<^verbatim>\<open>kernel/pgo/fs.c\<close>: the size pass
  (\<^verbatim>\<open>__prf_get_value_size\<close>), the write pass (\<^verbatim>\<open>prf_serialize_value\<close>), the header
  filler, the assembly of the whole buffer (\<^verbatim>\<open>prf_serialize\<close>) and the two debugfs entry
  points that call them.

  Fixed-width C integers are words: \<^verbatim>\<open>u8\<close>, \<^verbatim>\<open>u32\<close> and \<^verbatim>\<open>unsigned int\<close>
  wrap at their width, \<^verbatim>\<open>unsigned long\<close>, \<^verbatim>\<open>size_t\<close> and pointers are 64 bits wide.
\<close>

type_synonym u8 = "8 word"
type_synonym u32 = "32 word"
type_synonym u64 = "64 word"

subsection \<open>Data\<close>

text \<open>
  A node of a site's linked list. The \<^verbatim>\<open>next\<close> pointer is the tail of the HOL list that
  stands for the chain, the empty list being the null pointer; the two fields are the payload
  that \<^verbatim>\<open>memcpy\<close> takes from the front of the node.
\<close>

record llvm_prf_value_node =
  node_value :: u64
  node_count :: u64

type_synonym site = "llvm_prf_value_node list"

text \<open>
  The fields of \<^verbatim>\<open>struct llvm_prf_data\<close> that fs.c reads: \<^verbatim>\<open>values\<close>
  (here \<open>values_ptr\<close>), a pointer to the array of per-site list heads (\<open>None\<close> is the null pointer; the array is indexed by an
  \<^verbatim>\<open>unsigned int\<close> and carries no length, as in C), and the array \<^verbatim>\<open>num_value_sites\<close>,
  one entry per value kind, each entry at the width of the \<^verbatim>\<open>unsigned int sites\<close> it is
  read into. The length of the list is \<^verbatim>\<open>ARRAY_SIZE(p->num_value_sites)\<close>.
\<close>

record llvm_prf_data =
  values_ptr :: "(u32 \<Rightarrow> site) option"
  num_value_sites :: "u32 list"

record llvm_prf_value_data =
  total_size :: u32
  num_value_kinds :: u32

record llvm_prf_header =
  magic :: u64
  version :: u64
  data_size :: u64
  padding_bytes_before_counters :: u64
  counters_size :: u64
  padding_bytes_after_counters :: u64
  names_size :: u64
  counters_delta :: u64
  names_delta :: u64
  value_kind_last :: u64

record prf_private_data =
  p_buffer :: u64
  p_size :: u64

text \<open>
  Everything fs.c takes from \<^verbatim>\<open>pgo.h\<close> and from the linker script, neither of which is
  among the sources: the constants, the sizes of the structures, the size macros, the
  section start addresses, what the section accessors return, and the flags word that
  \<^verbatim>\<open>prf_serialize_lock\<close> hands back. They are parameters of the model;
  \<open>prf_records\<close> is the array from \<^verbatim>\<open>__llvm_prf_data_start\<close> to
  \<^verbatim>\<open>__llvm_prf_data_end\<close>. The linker symbols are written without their leading
  underscores. The accessors \<^verbatim>\<open>prf_data_size\<close>, \<^verbatim>\<open>prf_cnts_size\<close> and
  \<^verbatim>\<open>prf_names_size\<close> are one family, \<^verbatim>\<open>prf_data_count\<close>, \<^verbatim>\<open>prf_cnts_count\<close> and
  \<^verbatim>\<open>prf_names_count\<close> another; fs.c calls both.
\<close>

record pgo_env =
  LLVM_PRF_MAGIC :: u64
  LLVM_PRF_VERSION :: u64
  LLVM_PRF_VARIANT_MASK_IR :: u64
  LLVM_PRF_IPVK_LAST :: u64
  sizeof_llvm_prf_header :: u64
  sizeof_llvm_prf_value_data :: u64
  sizeof_llvm_prf_value_node_data :: u64
  prf_get_value_record_header_size :: u64
  prf_get_value_record_site_count_size :: "u32 \<Rightarrow> u64"
  prf_get_padding :: "u64 \<Rightarrow> u64"
  llvm_prf_data_start :: u64
  llvm_prf_cnts_start :: u64
  llvm_prf_names_start :: u64
  prf_data_size :: u64
  prf_cnts_size :: u64
  prf_names_size :: u64
  prf_data_count :: u64
  prf_cnts_count :: u64
  prf_names_count :: u64
  prf_records :: "llvm_prf_data list"
  prf_lock_flags :: u64

text \<open>
  Modelled from the spec: the macro \<^verbatim>\<open>prf_get_value_record_size\<close> of \<^verbatim>\<open>pgo.h\<close> is not
  among the sources. The size contract of the spec gives a present kind the bytes of its
  record header plus the bytes of its site count array.
\<close>

definition prf_get_value_record_size :: "pgo_env \<Rightarrow> u32 \<Rightarrow> u64" where
  "prf_get_value_record_size env sites =
     prf_get_value_record_header_size env + prf_get_value_record_site_count_size env sites"

text \<open>
  Modelled from the spec: \<^verbatim>\<open>U8_MAX\<close> and \<^verbatim>\<open>ENOMEM\<close> come from kernel headers that are
  not among the sources. The spec caps the count of a site at 255 and names the one error
  out of memory; the number of the error is the one of \<^verbatim>\<open>errno-base.h\<close>, and nothing
  below depends on it but that it is not 0.
\<close>

definition U8_MAX :: u32 where
  "U8_MAX = 255"

definition ENOMEM :: int where
  "ENOMEM = 12"

subsection \<open>Effects\<close>

text \<open>
  What a call does to memory and to the lock is kept as the list of its effects, in program
  order. The source of a \<^verbatim>\<open>memcpy\<close> is a section of the image, the local header of
  \<^verbatim>\<open>prf_serialize_value\<close>, or a list node. \<open>Lock flags\<close> is a call of
  \<^verbatim>\<open>prf_serialize_lock\<close> that returned \<open>flags\<close>, \<open>Unlock flags\<close> the call
  \<^verbatim>\<open>prf_serialize_unlock(flags)\<close>. The stores carry the address of the structure or
  byte they write.
\<close>

datatype copy_src =
    Section u64
  | ValueData llvm_prf_value_data
  | Node llvm_prf_value_node

datatype effect =
    Lock u64
  | Unlock u64
  | Memcpy u64 copy_src u64
  | Memset u64 u8 u64
  | StoreHeader (store_addr: u64) (stored_header: llvm_prf_header)
  | StoreKind u64 u32
  | StoreNumValueSites u64 u32
  | StoreSiteCount u64 u8
  | Kfree u64

text \<open>The cursor \<^verbatim>\<open>*buffer\<close> together with the effects so far.\<close>

record writer =
  buffer :: u64
  effects :: "effect list"

definition prf_copy_buffer :: "writer \<Rightarrow> copy_src \<Rightarrow> u64 \<Rightarrow> writer" where
  "prf_copy_buffer w src sz =
     w\<lparr>effects := effects w @ [Memcpy (buffer w) src sz], buffer := buffer w + sz\<rparr>"

subsection \<open>The header\<close>

definition prf_fill_header :: "pgo_env \<Rightarrow> writer \<Rightarrow> writer" where
  "prf_fill_header env w =
     (let header = \<lparr>magic = LLVM_PRF_MAGIC env,
                    version = LLVM_PRF_VARIANT_MASK_IR env OR LLVM_PRF_VERSION env,
                    data_size = prf_data_count env,
                    padding_bytes_before_counters = 0,
                    counters_size = prf_cnts_count env,
                    padding_bytes_after_counters = 0,
                    names_size = prf_names_count env,
                    counters_delta = llvm_prf_cnts_start env,
                    names_delta = llvm_prf_names_start env,
                    value_kind_last = LLVM_PRF_IPVK_LAST env\<rparr>
      in w\<lparr>effects := effects w @ [StoreHeader (buffer w) header],
           buffer := buffer w + sizeof_llvm_prf_header env\<rparr>)"

subsection \<open>The size pass\<close>

text \<open>
  \<^verbatim>\<open>while (site && ++count <= U8_MAX) site = site->next;\<close>
  The increment happens whenever the node is there, before the comparison.
\<close>

fun count_nodes :: "site \<Rightarrow> u32 \<Rightarrow> u32" where
  "count_nodes [] count = count"
| "count_nodes (node # next) count =
     (let count = count + 1
      in if count \<le> U8_MAX then count_nodes next count else count)"

text \<open>
  \<^verbatim>\<open>size += count * sizeof(struct llvm_prf_value_node_data)\<close>: the product and the sum are
  taken in \<^verbatim>\<open>size_t\<close> and the result is cut to the 32 bits of \<^verbatim>\<open>size\<close>.
\<close>

definition size_site :: "pgo_env \<Rightarrow> (u32 \<Rightarrow> site) \<Rightarrow> u32 \<Rightarrow> u32 \<Rightarrow> u32 \<Rightarrow> u32" where
  "size_site env nodes s n sz =
     (let count = count_nodes (nodes (s + n)) 0
      in ucast ((ucast sz :: u64) + ucast count * sizeof_llvm_prf_value_node_data env))"

definition size_sites :: "pgo_env \<Rightarrow> (u32 \<Rightarrow> site) \<Rightarrow> u32 \<Rightarrow> u32 \<Rightarrow> u32 \<Rightarrow> u32" where
  "size_sites env nodes s sites sz =
     fold (\<lambda>n. size_site env nodes s (of_nat n)) [0..<unat sites] sz"

text \<open>
  The loop over the value kinds, on the triple \<open>(size, kinds, s)\<close>. Both
  \<^verbatim>\<open>continue\<close> statements leave \<open>s\<close> as it is.
\<close>

fun size_kinds ::
  "pgo_env \<Rightarrow> (u32 \<Rightarrow> site) option \<Rightarrow> u32 list \<Rightarrow> u32 \<times> u32 \<times> u32 \<Rightarrow> u32 \<times> u32 \<times> u32" where
  "size_kinds env nodes [] acc = acc"
| "size_kinds env nodes (sites # rest) (sz, kinds, s) =
     (if sites = 0 then size_kinds env nodes rest (sz, kinds, s)
      else
        let sz = ucast ((ucast sz :: u64) + prf_get_value_record_size env sites);
            kinds = kinds + 1
        in case nodes of
             None \<Rightarrow> size_kinds env nodes rest (sz, kinds, s)
           | Some nd \<Rightarrow>
               size_kinds env nodes rest (size_sites env nd s sites sz, kinds, s + sites))"

text \<open>
  \<^verbatim>\<open>__prf_get_value_size(p, value_kinds)\<close>: the pair of the returned size and of the number
  stored through \<^verbatim>\<open>value_kinds\<close>, which a caller passing a null pointer ignores.
\<close>

definition prf_get_value_size_p :: "pgo_env \<Rightarrow> llvm_prf_data \<Rightarrow> u32 \<times> u32" where
  "prf_get_value_size_p env p =
     (case size_kinds env (values_ptr p) (num_value_sites p) (0, 0, 0) of
        (sz, kinds, s) \<Rightarrow>
          (if sz \<noteq> 0 then ucast ((ucast sz :: u64) + sizeof_llvm_prf_value_data env) else sz,
           kinds))"

definition prf_get_value_size :: "pgo_env \<Rightarrow> u32" where
  "prf_get_value_size env =
     fold (\<lambda>p sz. sz + fst (prf_get_value_size_p env p)) (prf_records env) 0"

subsection \<open>The write pass\<close>

text \<open>
  \<^verbatim>\<open>while (site && ++count <= U8_MAX) { prf_copy_buffer(...); site = site->next; }\<close>
\<close>

fun copy_nodes :: "pgo_env \<Rightarrow> site \<Rightarrow> u32 \<Rightarrow> writer \<Rightarrow> u32 \<times> writer" where
  "copy_nodes env [] count w = (count, w)"
| "copy_nodes env (node # next) count w =
     (let count = count + 1
      in if count \<le> U8_MAX
         then copy_nodes env next count
                (prf_copy_buffer w (Node node) (sizeof_llvm_prf_value_node_data env))
         else (count, w))"

text \<open>One round of the loop over the sites, ending in \<^verbatim>\<open>counts[n] = (u8)count\<close>.\<close>

definition serialize_site ::
  "pgo_env \<Rightarrow> (u32 \<Rightarrow> site) \<Rightarrow> u32 \<Rightarrow> u64 \<Rightarrow> u32 \<Rightarrow> writer \<Rightarrow> writer" where
  "serialize_site env nodes s counts n w =
     (case copy_nodes env (nodes (s + n)) 0 w of
        (count, w) \<Rightarrow> w\<lparr>effects := effects w @ [StoreSiteCount (counts + ucast n) (ucast count)]\<rparr>)"

definition serialize_sites ::
  "pgo_env \<Rightarrow> (u32 \<Rightarrow> site) \<Rightarrow> u32 \<Rightarrow> u64 \<Rightarrow> u32 \<Rightarrow> writer \<Rightarrow> writer" where
  "serialize_sites env nodes s counts sites w =
     fold (\<lambda>n. serialize_site env nodes s counts (of_nat n)) [0..<unat sites] w"

text \<open>
  The part of the loop body that every kind with sites runs: the record slot is taken at the
  cursor, its two fields are stored, and the count array is reserved after it. The result is
  the address of the count array and the writer.
\<close>

definition serialize_record :: "pgo_env \<Rightarrow> u32 \<Rightarrow> u32 \<Rightarrow> writer \<Rightarrow> u64 \<times> writer" where
  "serialize_record env kind sites w =
     (let record = buffer w;
          w = w\<lparr>buffer := buffer w + prf_get_value_record_header_size env\<rparr>;
          w = w\<lparr>effects := effects w @ [StoreKind record kind, StoreNumValueSites record sites]\<rparr>;
          counts = buffer w;
          w = w\<lparr>buffer := buffer w + prf_get_value_record_site_count_size env sites\<rparr>
      in (counts, w))"

fun serialize_kinds ::
  "pgo_env \<Rightarrow> (u32 \<Rightarrow> site) option \<Rightarrow> u32 list \<Rightarrow> u32 \<Rightarrow> u32 \<Rightarrow> writer \<Rightarrow> writer" where
  "serialize_kinds env nodes [] kind s w = w"
| "serialize_kinds env nodes (sites # rest) kind s w =
     (if sites = 0 then serialize_kinds env nodes rest (kind + 1) s w
      else
        case serialize_record env kind sites w of
          (counts, w) \<Rightarrow>
            (case nodes of
               None \<Rightarrow> serialize_kinds env nodes rest (kind + 1) s w
             | Some nd \<Rightarrow>
                 serialize_kinds env nodes rest (kind + 1) (s + sites)
                   (serialize_sites env nd s counts sites w)))"

definition prf_serialize_value :: "pgo_env \<Rightarrow> llvm_prf_data \<Rightarrow> writer \<Rightarrow> writer" where
  "prf_serialize_value env p w =
     (case prf_get_value_size_p env p of
        (sz, kinds) \<Rightarrow>
          if kinds = 0 then w
          else serialize_kinds env (values_ptr p) (num_value_sites p) 0 0
                 (prf_copy_buffer w
                    (ValueData \<lparr>total_size = sz, num_value_kinds = kinds\<rparr>)
                    (sizeof_llvm_prf_value_data env)))"

definition prf_serialize_values :: "pgo_env \<Rightarrow> writer \<Rightarrow> writer" where
  "prf_serialize_values env w = fold (prf_serialize_value env) (prf_records env) w"

subsection \<open>Assembling the buffer\<close>

definition prf_buffer_size :: "pgo_env \<Rightarrow> u64" where
  "prf_buffer_size env =
     sizeof_llvm_prf_header env +
     prf_data_size env +
     prf_cnts_size env +
     prf_names_size env +
     prf_get_padding env (prf_names_size env) +
     ucast (prf_get_value_size env)"

text \<open>
  What \<^verbatim>\<open>prf_serialize\<close> leaves behind: the returned \<^verbatim>\<open>err\<close>, the private data it
  filled in, and the writer with the final value of the local cursor \<^verbatim>\<open>buffer\<close> and every
  effect of the call. \<^verbatim>\<open>vzalloc\<close> is a parameter, the null pointer being 0. On the path
  of the failed allocation the local cursor is never assigned; it is 0 there.
\<close>

record serialized =
  err :: int
  priv :: prf_private_data
  final :: writer

definition prf_serialize :: "pgo_env \<Rightarrow> (u64 \<Rightarrow> u64) \<Rightarrow> prf_private_data \<Rightarrow> serialized" where
  "prf_serialize env vzalloc p =
     (let flags = prf_lock_flags env;
          w = \<lparr>buffer = 0, effects = [Lock flags]\<rparr>;
          p = p\<lparr>p_size := prf_buffer_size env\<rparr>;
          p = p\<lparr>p_buffer := vzalloc (p_size p)\<rparr>
      in if p_buffer p = 0
         then \<lparr>err = - ENOMEM, priv = p,
               final = w\<lparr>effects := effects w @ [Unlock flags]\<rparr>\<rparr>
         else
           let w = w\<lparr>buffer := p_buffer p\<rparr>;
               w = prf_fill_header env w;
               w = prf_copy_buffer w (Section (llvm_prf_data_start env)) (prf_data_size env);
               w = prf_copy_buffer w (Section (llvm_prf_cnts_start env)) (prf_cnts_size env);
               w = prf_copy_buffer w (Section (llvm_prf_names_start env)) (prf_names_size env);
               w = w\<lparr>buffer := buffer w + prf_get_padding env (prf_names_size env)\<rparr>;
               w = prf_serialize_values env w
           in \<lparr>err = 0, priv = p,
               final = w\<lparr>effects := effects w @ [Unlock flags]\<rparr>\<rparr>)"

subsection \<open>The debugfs entry points\<close>

text \<open>
  \<^verbatim>\<open>prf_open\<close>: \<open>kzalloc\<close> is the pointer the allocation of the private data
  returned (0 when it failed); the allocation is zero-filled. The result is the return value,
  the \<^verbatim>\<open>private_data\<close> of the file afterwards (\<open>None\<close> is the null pointer) and the
  effects. The \<^verbatim>\<open>WARN_ON\<close> only logs.
\<close>

definition prf_open ::
  "pgo_env \<Rightarrow> u64 \<Rightarrow> (u64 \<Rightarrow> u64) \<Rightarrow> prf_private_data option
     \<Rightarrow> int \<times> prf_private_data option \<times> effect list" where
  "prf_open env kzalloc vzalloc private_data =
     (if kzalloc = 0 then (- ENOMEM, private_data, [])
      else
        let r = prf_serialize env vzalloc \<lparr>p_buffer = 0, p_size = 0\<rparr>
        in if err r \<noteq> 0
           then (err r, private_data, effects (final r) @ [Kfree kzalloc])
           else (0, Some (priv r), effects (final r)))"

text \<open>\<^verbatim>\<open>prf_reset_write\<close>: the return value and the effects.\<close>

definition prf_reset_write :: "pgo_env \<Rightarrow> u64 \<Rightarrow> u64 \<times> effect list" where
  "prf_reset_write env len =
     (len, [Memset (llvm_prf_cnts_start env) 0 (prf_cnts_size env)])"

subsection \<open>Properties of effect lists\<close>

text \<open>The payloads of the nodes of a list, copied one after the other from address \<open>a\<close> on.\<close>

fun payloads :: "pgo_env \<Rightarrow> u64 \<Rightarrow> site \<Rightarrow> effect list" where
  "payloads env a [] = []"
| "payloads env a (node # next) =
     Memcpy a (Node node) (sizeof_llvm_prf_value_node_data env)
       # payloads env (a + sizeof_llvm_prf_value_node_data env) next"

fun is_lock_op :: "effect \<Rightarrow> bool" where
  "is_lock_op (Lock flags) = True"
| "is_lock_op (Unlock flags) = True"
| "is_lock_op e = False"

fun is_site_count :: "effect \<Rightarrow> bool" where
  "is_site_count (StoreSiteCount a c) = True"
| "is_site_count e = False"

fun is_payload :: "effect \<Rightarrow> bool" where
  "is_payload (Memcpy a (Node node) sz) = True"
| "is_payload e = False"

text \<open>
  Every access to memory in a list of effects happens between a \<open>Lock\<close> and the next
  \<open>Unlock\<close>; the first argument tells whether the lock is held at the start.
\<close>

fun guarded :: "bool \<Rightarrow> effect list \<Rightarrow> bool" where
  "guarded held [] = True"
| "guarded held (Lock flags # es) = guarded True es"
| "guarded held (Unlock flags # es) = guarded False es"
| "guarded held (Kfree a # es) = guarded held es"
| "guarded held (e # es) = (held \<and> guarded held es)"

text \<open>
  The value kinds of a record with their tags, as the loop variable \<^verbatim>\<open>kind\<close> numbers
  them, and those among them that have sites.
\<close>

fun tagged :: "u32 \<Rightarrow> u32 list \<Rightarrow> (u32 \<times> u32) list" where
  "tagged kind [] = []"
| "tagged kind (sites # rest) = (kind, sites) # tagged (kind + 1) rest"

definition present_kinds :: "llvm_prf_data \<Rightarrow> (u32 \<times> u32) list" where
  "present_kinds p = filter (\<lambda>(kind, sites). sites \<noteq> 0) (tagged 0 (num_value_sites p))"

text \<open>
  The stores of record headers that are laid out from address \<open>a\<close> on with nothing but
  their count arrays between them, none of the count bytes being written.
\<close>

fun bare_records :: "pgo_env \<Rightarrow> u64 \<Rightarrow> (u32 \<times> u32) list \<Rightarrow> effect list" where
  "bare_records env a [] = []"
| "bare_records env a ((kind, sites) # rest) =
     StoreKind a kind # StoreNumValueSites a sites
       # bare_records env (a + prf_get_value_record_size env sites) rest"

definition records_size :: "pgo_env \<Rightarrow> (u32 \<times> u32) list \<Rightarrow> u64" where
  "records_size env ks = sum_list (map (\<lambda>(kind, sites). prf_get_value_record_size env sites) ks)"

text \<open>
  The second list is the first one followed by effects that do not touch the lock.
\<close>

definition extends_quietly :: "effect list \<Rightarrow> effect list \<Rightarrow> bool" where
  "extends_quietly es es' =
     (take (length es) es' = es \<and> filter is_lock_op (drop (length es) es') = [])"

subsection \<open>Two threads and the lock\<close>

text \<open>
  A schedule is a list of effects, each with the thread that performs it: the thread that
  takes a snapshot or the thread that resets the counters.
\<close>

datatype thread = Snapshot | Reset

text \<open>
  Modelled from the spec: \<^verbatim>\<open>prf_serialize_lock\<close> and \<^verbatim>\<open>prf_serialize_unlock\<close> are not
  among the sources. The spec makes the guard a mutual exclusion that is never acquired
  recursively: a thread acquires the lock only when no thread holds it, and the thread that
  holds it releases it. An effect that is neither is held up by nothing. The first argument
  is the holder at the start.
\<close>

fun lock_ok :: "thread option \<Rightarrow> (thread \<times> effect) list \<Rightarrow> bool" where
  "lock_ok holder [] = True"
| "lock_ok holder ((t, Lock flags) # rest) = (holder = None \<and> lock_ok (Some t) rest)"
| "lock_ok holder ((t, Unlock flags) # rest) = (holder = Some t \<and> lock_ok None rest)"
| "lock_ok holder ((t, e) # rest) = lock_ok holder rest"

text \<open>The holder of the lock at the end of a schedule.\<close>

fun holder_after :: "thread option \<Rightarrow> (thread \<times> effect) list \<Rightarrow> thread option" where
  "holder_after holder [] = holder"
| "holder_after holder ((t, Lock flags) # rest) = holder_after (Some t) rest"
| "holder_after holder ((t, Unlock flags) # rest) = holder_after None rest"
| "holder_after holder ((t, e) # rest) = holder_after holder rest"

text \<open>The effects of one thread in a schedule, in their order.\<close>

definition run_of :: "thread \<Rightarrow> (thread \<times> effect) list \<Rightarrow> effect list" where
  "run_of t sch = map snd (filter (\<lambda>(t', e). t' = t) sch)"

text \<open>
  The schedule in which the snapshot performs the first \<open>k\<close> of its effects \<open>es\<close>, then the
  reset performs all of its effects \<open>rs\<close>, then the snapshot performs the rest.
\<close>

definition reset_during :: "nat \<Rightarrow> effect list \<Rightarrow> effect list \<Rightarrow> (thread \<times> effect) list" where
  "reset_during k es rs =
     map (Pair Snapshot) (take k es) @ map (Pair Reset) rs @ map (Pair Snapshot) (drop k es)"

subsection \<open>The size contract of the spec\<close>

text \<open>
  The contract the spec gives the size pass, in natural numbers: the total is 0, or the size
  of the value data header plus, for every kind with sites, the bytes of the record header
  and of the count array and, for every site, one payload for each of the first 255 nodes of
  its list. The sites of a kind start at index \<open>s\<close> of the array of list heads.
\<close>

fun spec_kinds_size :: "pgo_env \<Rightarrow> (u32 \<Rightarrow> site) option \<Rightarrow> u32 list \<Rightarrow> u32 \<Rightarrow> nat" where
  "spec_kinds_size env nodes [] s = 0"
| "spec_kinds_size env nodes (sites # rest) s =
     (if sites = 0 then spec_kinds_size env nodes rest s
      else
        unat (prf_get_value_record_header_size env) +
        unat (prf_get_value_record_site_count_size env sites) +
        (case nodes of
           None \<Rightarrow> spec_kinds_size env nodes rest s
         | Some nd \<Rightarrow>
             sum_list
               (map (\<lambda>n. min (length (nd (s + of_nat n))) 255 *
                      unat (sizeof_llvm_prf_value_node_data env))
                  [0..<unat sites]) +
             spec_kinds_size env nodes rest (s + sites)))"

definition spec_value_size :: "pgo_env \<Rightarrow> llvm_prf_data \<Rightarrow> nat" where
  "spec_value_size env p =
     (let body = spec_kinds_size env (values_ptr p) (num_value_sites p) 0
      in if body = 0 then 0 else unat (sizeof_llvm_prf_value_data env) + body)"

text \<open>No list that the array of list heads points to has more than 255 nodes.\<close>

definition short_lists :: "llvm_prf_data \<Rightarrow> bool" where
  "short_lists p = (case values_ptr p of None \<Rightarrow> True | Some nd \<Rightarrow> \<forall>i. length (nd i) \<le> 255)"

subsection \<open>A concrete configuration\<close>

text \<open>
  The parameters as the LLVM raw profile format of version 5 has them on a 64-bit
  little-endian kernel: the header is ten 64-bit fields, a node payload two, the value data
  header and the record header two 32-bit fields each, the count array is rounded up to a
  multiple of 8 bytes in \<^verbatim>\<open>unsigned int\<close> arithmetic, and the padding after the names
  fills up to the next multiple of 8. The sections hold one record of 48 bytes, two counters
  and five bytes of names.
\<close>

definition example_env :: pgo_env where
  "example_env =
     \<lparr>LLVM_PRF_MAGIC = 0xff6c70726f667281,
      LLVM_PRF_VERSION = 5,
      LLVM_PRF_VARIANT_MASK_IR = 0x0100000000000000,
      LLVM_PRF_IPVK_LAST = 1,
      sizeof_llvm_prf_header = 80,
      sizeof_llvm_prf_value_data = 8,
      sizeof_llvm_prf_value_node_data = 16,
      prf_get_value_record_header_size = 8,
      prf_get_value_record_site_count_size = (\<lambda>sites :: u32. ucast (((sites + 7) div 8) * 8)),
      prf_get_padding = (\<lambda>sz. 7 AND (8 - sz mod 8)),
      llvm_prf_data_start = 0xffffffff82000000,
      llvm_prf_cnts_start = 0xffffffff82001000,
      llvm_prf_names_start = 0xffffffff82002000,
      prf_data_size = 48,
      prf_cnts_size = 16,
      prf_names_size = 5,
      prf_data_count = 1,
      prf_cnts_count = 2,
      prf_names_count = 5,
      prf_records = [],
      prf_lock_flags = 0x246\<rparr>"

definition sample :: "nat \<Rightarrow> llvm_prf_value_node" where
  "sample i = \<lparr>node_value = of_nat i, node_count = 1\<rparr>"

text \<open>A record with one site of the first kind, whose list has 300 nodes.\<close>

definition long_record :: llvm_prf_data where
  "long_record =
     \<lparr>values_ptr = Some (\<lambda>i. if i = 0 then map sample [0..<300] else []),
      num_value_sites = [1, 0]\<rparr>"

text \<open>A record with two sites of the first kind, with lists of 3 and of 255 nodes.\<close>

definition short_record :: llvm_prf_data where
  "short_record =
     \<lparr>values_ptr =
        Some (\<lambda>i. if i = 0 then map sample [0..<3]
                  else if i = 1 then map sample [0..<255] else []),
      num_value_sites = [2, 0]\<rparr>"

text \<open>A record with three sites of the first kind and no array of list heads.\<close>

definition bare_record :: llvm_prf_data where
  "bare_record = \<lparr>values_ptr = None, num_value_sites = [3, 0]\<rparr>"

text \<open>A record without sites of any kind.\<close>

definition empty_record :: llvm_prf_data where
  "empty_record = \<lparr>values_ptr = Some (\<lambda>i. [sample 7]), num_value_sites = [0, 0]\<rparr>"

text \<open>The configuration with the long record as the only record of the data section.\<close>

definition long_env :: pgo_env where
  "long_env = example_env\<lparr>prf_records := [long_record]\<rparr>"

text \<open>A writer at the start of a buffer, with no effects yet.\<close>

definition start :: writer where
  "start = \<lparr>buffer = 0xffffc90000000000, effects = []\<rparr>"

section \<open>Verification\<close>

subsection \<open>The two list walks\<close>

lemma unat_u32_succ: "unat (c :: u32) \<le> 255 \<Longrightarrow> unat (c + 1) = unat c + 1"
  by (simp add: unat_word_ariths)

lemma le_U8_MAX: "((c :: u32) \<le> U8_MAX) = (unat c \<le> 255)"
  by (simp add: U8_MAX_def word_le_nat_alt)

lemma count_nodes_eq:
  "unat c \<le> 255 \<Longrightarrow>
   count_nodes xs c = (if unat c + length xs \<le> 255 then c + of_nat (length xs) else 256)"
proof (induction xs arbitrary: c)
  case Nil
  then show ?case by simp
next
  case (Cons x xs)
  have s: "unat (c + 1) = unat c + 1" using Cons.prems by (rule unat_u32_succ)
  show ?case
  proof (cases "unat c + 1 \<le> 255")
    case True
    then show ?thesis using Cons.IH [of "c + 1"] s
      by (simp add: Let_def le_U8_MAX add.assoc)
  next
    case False
    then have "unat c = 255" using Cons.prems by simp
    then have "c = 255" by (simp add: word_unat_eq_iff)
    then show ?thesis using False s
      by (simp add: Let_def le_U8_MAX)
  qed
qed

lemma count_nodes_0:
  "count_nodes xs 0 = (if length xs \<le> 255 then of_nat (length xs) else 256)"
  using count_nodes_eq [of 0 xs] by simp

lemma copy_nodes_fst: "fst (copy_nodes env xs c w) = count_nodes xs c"
  by (induction xs arbitrary: c w) (simp_all add: Let_def)

lemma copy_nodes_effects:
  "unat c \<le> 255 \<Longrightarrow>
   effects (snd (copy_nodes env xs c w)) =
     effects w @ payloads env (buffer w) (take (255 - unat c) xs)"
proof (induction xs arbitrary: c w)
  case Nil
  then show ?case by simp
next
  case (Cons x xs)
  have s: "unat (c + 1) = unat c + 1" using Cons.prems by (rule unat_u32_succ)
  show ?case
  proof (cases "unat c + 1 \<le> 255")
    case True
    then have t: "255 - unat c = Suc (255 - (unat c + 1))" by simp
    show ?thesis using True Cons.IH [of "c + 1"] s
      by (simp add: Let_def le_U8_MAX prf_copy_buffer_def t del: One_nat_def)
  next
    case False
    then show ?thesis using s by (simp add: Let_def le_U8_MAX)
  qed
qed

lemma copy_nodes_buffer:
  "unat c \<le> 255 \<Longrightarrow>
   buffer (snd (copy_nodes env xs c w)) =
     buffer w + of_nat (min (length xs) (255 - unat c)) * sizeof_llvm_prf_value_node_data env"
proof (induction xs arbitrary: c w)
  case Nil
  then show ?case by simp
next
  case (Cons x xs)
  have s: "unat (c + 1) = unat c + 1" using Cons.prems by (rule unat_u32_succ)
  show ?case
  proof (cases "unat c + 1 \<le> 255")
    case True
    then have t: "min (Suc (length xs)) (255 - unat c) = Suc (min (length xs) (255 - (unat c + 1)))"
      by simp
    show ?thesis using True Cons.IH [of "c + 1"] s
      by (simp add: Let_def le_U8_MAX prf_copy_buffer_def t algebra_simps del: One_nat_def)
  next
    case False
    then show ?thesis using s by (simp add: Let_def le_U8_MAX)
  qed
qed

text \<open>
  One site in the write pass: the payloads of the first 255 nodes are copied, and the count
  byte is the length of the list when that is at most 255, and 0 for every longer list,
  the counter having stopped at 256.
\<close>

lemma serialize_site_effects:
  "effects (serialize_site env nodes s counts n w) =
     effects w @ payloads env (buffer w) (take 255 (nodes (s + n))) @
       [StoreSiteCount (counts + ucast n)
          (if length (nodes (s + n)) \<le> 255 then of_nat (length (nodes (s + n))) else 0)]"
proof -
  have c: "(ucast (256 :: u32) :: u8) = 0" by simp
  have d: "(ucast (word_of_nat k :: u32) :: u8) = word_of_nat k" for k
    by (simp add: unsigned_of_nat take_bit_of_nat word_eq_iff_unsigned [where ?'a = nat] unsigned_of_nat) 
  show ?thesis
    using copy_nodes_effects [of 0 env "nodes (s + n)" w]
      copy_nodes_fst [of env "nodes (s + n)" 0 w]
    by (simp add: serialize_site_def split_beta count_nodes_0 c d)
qed

lemma serialize_site_buffer:
  "buffer (serialize_site env nodes s counts n w) =
     buffer w + of_nat (min (length (nodes (s + n))) 255) * sizeof_llvm_prf_value_node_data env"
  using copy_nodes_buffer [of 0 env "nodes (s + n)" w]
  by (simp add: serialize_site_def split_beta)

lemma ucast_add_down: "(ucast (a + b :: u64) :: u32) = ucast a + ucast b"
proof -
  have "(ucast (word_of_int (uint a + uint b) :: u64) :: u32) = word_of_int (uint a + uint b)"
    by (rule ucast_down_wi) (simp add: is_down)
  then show ?thesis by simp
qed

lemma ucast_mult_down: "(ucast (a * b :: u64) :: u32) = ucast a * ucast b"
proof -
  have "(ucast (word_of_int (uint a * uint b) :: u64) :: u32) = word_of_int (uint a * uint b)"
    by (rule ucast_down_wi) (simp add: is_down)
  then show ?thesis by simp
qed

lemma ucast_up_down: "(ucast (ucast (a :: u32) :: u64) :: u32) = a"
  by (rule ucast_up_ucast_id) (simp add: is_up)

lemmas ucast_down = ucast_add_down ucast_mult_down ucast_up_down

lemma size_site_eq:
  "size_site env nodes s n sz =
     sz + (if length (nodes (s + n)) \<le> 255 then of_nat (length (nodes (s + n))) else 256)
            * ucast (sizeof_llvm_prf_value_node_data env)"
  by (simp add: size_site_def count_nodes_0 ucast_down)

subsection \<open>The configuration\<close>

lemma example_env_simps:
  "sizeof_llvm_prf_header example_env = 80"
  "sizeof_llvm_prf_value_data example_env = 8"
  "sizeof_llvm_prf_value_node_data example_env = 16"
  "prf_get_value_record_header_size example_env = 8"
  "prf_get_value_record_site_count_size example_env 1 = 8"
  "prf_get_value_record_site_count_size example_env 3 = 8"
  "prf_data_size example_env = 48"
  "prf_cnts_size example_env = 16"
  "prf_names_size example_env = 5"
  "prf_get_padding example_env 5 = 3"
  "prf_lock_flags example_env = 0x246"
  by (simp_all add: example_env_def)

lemma long_record_size: "prf_get_value_size_p env' long_record = (4120, 1)"
  if "sizeof_llvm_prf_value_data env' = 8" "sizeof_llvm_prf_value_node_data env' = 16"
     "prf_get_value_record_header_size env' = 8"
     "prf_get_value_record_site_count_size env' 1 = 8"
  using that
  by (simp add: prf_get_value_size_p_def long_record_def size_sites_def size_site_eq
      prf_get_value_record_size_def ucast_down)

lemma long_record_written:
  assumes "sizeof_llvm_prf_value_data env' = 8" "sizeof_llvm_prf_value_node_data env' = 16"
    "prf_get_value_record_header_size env' = 8"
    "prf_get_value_record_site_count_size env' 1 = 8"
  shows "buffer (prf_serialize_value env' long_record w) = buffer w + 4104"
    and "effects (prf_serialize_value env' long_record w) =
      effects w @
        [Memcpy (buffer w) (ValueData \<lparr>total_size = 4120, num_value_kinds = 1\<rparr>) 8,
         StoreKind (buffer w + 8) 0, StoreNumValueSites (buffer w + 8) 1] @
        payloads env' (buffer w + 24) (map sample [0..<255]) @
        [StoreSiteCount (buffer w + 16) 0]"
proof -
  have v: "values_ptr long_record = Some (\<lambda>i. if i = 0 then map sample [0..<300] else [])"
    and n: "num_value_sites long_record = [1, 0]"
    by (simp_all add: long_record_def)
  show "buffer (prf_serialize_value env' long_record w) = buffer w + 4104"
    using assms
    by (simp add: prf_serialize_value_def long_record_size [OF assms] v n serialize_sites_def
        serialize_record_def prf_copy_buffer_def serialize_site_buffer Let_def)
  show "effects (prf_serialize_value env' long_record w) =
      effects w @
        [Memcpy (buffer w) (ValueData \<lparr>total_size = 4120, num_value_kinds = 1\<rparr>) 8,
         StoreKind (buffer w + 8) 0, StoreNumValueSites (buffer w + 8) 1] @
        payloads env' (buffer w + 24) (map sample [0..<255]) @
        [StoreSiteCount (buffer w + 16) 0]"
    using assms
    by (simp add: prf_serialize_value_def long_record_size [OF assms] v n serialize_sites_def
        serialize_record_def prf_copy_buffer_def serialize_site_effects Let_def take_map
        add.commute)
qed

text \<open>
  C1. The size pass and the write pass disagree on a record with a site whose list has 300
  nodes: the size pass returns 4120 bytes, the write pass advances the cursor by 4104.
\<close>

theorem size_pass_exceeds_write_pass:
  "fst (prf_get_value_size_p example_env long_record) = 4120 \<and>
   buffer (prf_serialize_value example_env long_record start) - buffer start = 4104 \<and>
   ucast (fst (prf_get_value_size_p example_env long_record))
     \<noteq> buffer (prf_serialize_value example_env long_record start) - buffer start"
  by (simp add: long_record_size long_record_written example_env_simps)

text \<open>
  C2. On a site whose list has 300 nodes, the write pass copies the payloads of the first
  255 nodes and stores 0, not 255, in the count byte of the site.
\<close>

theorem long_list_count_byte_is_zero:
  "effects (prf_serialize_value example_env long_record start) =
     [Memcpy 0xffffc90000000000 (ValueData \<lparr>total_size = 4120, num_value_kinds = 1\<rparr>) 8,
      StoreKind 0xffffc90000000008 0, StoreNumValueSites 0xffffc90000000008 1] @
     payloads example_env 0xffffc90000000018 (map sample [0..<255]) @
     [StoreSiteCount 0xffffc90000000010 0] \<and>
   length (filter is_payload (effects (prf_serialize_value example_env long_record start))) = 255"
proof -
  have "filter is_payload (payloads env a xs) = payloads env a xs" for env a xs
    by (induction xs arbitrary: a) simp_all
  moreover have "length (payloads env a xs) = length xs" for env a xs
    by (induction xs arbitrary: a) simp_all
  ultimately show ?thesis
    by (simp add: long_record_written example_env_simps start_def)
qed

subsection \<open>Records without sites\<close>

lemma size_kinds_no_sites:
  "list_all (\<lambda>sites. sites = 0) xs \<Longrightarrow>
   size_kinds env nodes xs (sz, kinds, s) = (sz, kinds, s)"
  by (induction xs) simp_all

lemma serialize_kinds_no_sites:
  "list_all (\<lambda>sites. sites = 0) xs \<Longrightarrow> serialize_kinds env nodes xs kind s w = w"
  by (induction xs arbitrary: kind) simp_all

text \<open>
  C4. A record whose value kinds all have a site count of zero: the size pass returns size 0
  and 0 kinds, and the write pass leaves the cursor and the buffer as they are.
\<close>

theorem no_sites_nothing_emitted:
  assumes "list_all (\<lambda>sites. sites = 0) (num_value_sites p)"
  shows "prf_get_value_size_p env p = (0, 0) \<and> prf_serialize_value env p w = w"
  using assms
  by (simp add: prf_get_value_size_p_def prf_serialize_value_def size_kinds_no_sites)

theorem no_sites_nothing_emitted_witness:
  "list_all (\<lambda>sites. sites = 0) (num_value_sites empty_record) \<and>
   prf_get_value_size_p example_env empty_record = (0, 0) \<and>
   prf_serialize_value example_env empty_record start = start"
  using no_sites_nothing_emitted [of empty_record example_env start]
  by (simp add: empty_record_def)


subsection \<open>Records without an array of list heads\<close>

lemma size_kinds_None:
  "size_kinds env None xs (sz, kinds, s) =
     (sz + ucast (records_size env (filter (\<lambda>(kind, sites). sites \<noteq> 0) (tagged kind xs))),
      kinds + of_nat (length (filter (\<lambda>(kind, sites). sites \<noteq> 0) (tagged kind xs))),
      s)"
proof (induction xs arbitrary: sz kinds kind)
  case Nil
  then show ?case by (simp add: records_size_def)
next
  case (Cons sites rest)
  show ?case
    using Cons.IH [of _ _ "kind + 1"]
    by (simp add: records_size_def ucast_down Let_def algebra_simps)
qed

lemma serialize_kinds_None:
  "buffer (serialize_kinds env None xs kind s w) =
     buffer w + records_size env (filter (\<lambda>(kind, sites). sites \<noteq> 0) (tagged kind xs)) \<and>
   effects (serialize_kinds env None xs kind s w) =
     effects w @
       bare_records env (buffer w) (filter (\<lambda>(kind, sites). sites \<noteq> 0) (tagged kind xs))"
proof (induction xs arbitrary: kind w)
  case Nil
  then show ?case by (simp add: records_size_def)
next
  case (Cons sites rest)
  show ?case
    using Cons.IH [of "kind + 1"]
    by (simp add: records_size_def serialize_record_def Let_def
        prf_get_value_record_size_def algebra_simps)
qed

lemma bare_records_no_counts [simp]: "filter is_site_count (bare_records env a ks) = []"
  by (induction env a ks rule: bare_records.induct) simp_all

lemma bare_records_no_payloads [simp]: "filter is_payload (bare_records env a ks) = []"
  by (induction env a ks rule: bare_records.induct) simp_all

lemma length_tagged [simp]: "length (tagged kind xs) = length xs"
  by (induction xs arbitrary: kind) simp_all

lemma of_nat_u32_neq_0: "0 < n \<Longrightarrow> n < 2 ^ 32 \<Longrightarrow> (of_nat n :: u32) \<noteq> 0"
  by (simp add: word_unat_eq_iff unsigned_of_nat take_bit_nat_eq_self)

text \<open>
  C5. A record whose \<^verbatim>\<open>values\<close> pointer is null and which has a kind with sites. The
  size pass counts the record header and the count array of every kind with sites, and
  the header of the value data on top when that sum is not zero in 32 bits. The write pass
  copies the value data header and stores, for every such kind, the kind tag and the
  site count in the record slot, moving the cursor past the slot and the count array. It
  stores no count byte and copies no node payload.
\<close>

theorem absent_nodes_bare_records:
  assumes "values_ptr p = None"
    and "present_kinds p \<noteq> []"
    and "length (num_value_sites p) < 2 ^ 32"
  shows
    "snd (prf_get_value_size_p env p) = of_nat (length (present_kinds p)) \<and>
     fst (prf_get_value_size_p env p) =
       (if (ucast (records_size env (present_kinds p)) :: u32) = 0 then 0
        else ucast (records_size env (present_kinds p) + sizeof_llvm_prf_value_data env)) \<and>
     buffer (prf_serialize_value env p w) =
       buffer w + sizeof_llvm_prf_value_data env + records_size env (present_kinds p) \<and>
     effects (prf_serialize_value env p w) =
       effects w @
         Memcpy (buffer w)
           (ValueData \<lparr>total_size = fst (prf_get_value_size_p env p),
                       num_value_kinds = snd (prf_get_value_size_p env p)\<rparr>)
           (sizeof_llvm_prf_value_data env)
         # bare_records env (buffer w + sizeof_llvm_prf_value_data env) (present_kinds p) \<and>
     filter is_site_count (effects (prf_serialize_value env p w)) =
       filter is_site_count (effects w) \<and>
     filter is_payload (effects (prf_serialize_value env p w)) =
       filter is_payload (effects w)"
proof -
  let ?ks = "present_kinds p"
  have "length ?ks \<le> length (num_value_sites p)"
    unfolding present_kinds_def using length_filter_le [of _ "tagged 0 (num_value_sites p)"]
    by simp
  then have "0 < length ?ks" "length ?ks < 2 ^ 32" using assms by simp_all
  then have k: "(of_nat (length ?ks) :: u32) \<noteq> 0" by (rule of_nat_u32_neq_0)
  have sz: "prf_get_value_size_p env p =
      (if (ucast (records_size env ?ks) :: u32) = 0 then 0
       else ucast (records_size env ?ks + sizeof_llvm_prf_value_data env),
       of_nat (length ?ks))"
    using assms(1)
    by (simp add: prf_get_value_size_p_def size_kinds_None [of _ _ 0 0 0 0] present_kinds_def
        ucast_down)
  show ?thesis
    using k assms(1) serialize_kinds_None [of env "num_value_sites p" 0 0]
    by (simp add: sz prf_serialize_value_def prf_copy_buffer_def present_kinds_def)
qed

lemma bare_record_present: "present_kinds bare_record = [(0, 3)]"
  by (simp add: present_kinds_def bare_record_def)

theorem absent_nodes_bare_records_witness:
  "values_ptr bare_record = None \<and> present_kinds bare_record \<noteq> [] \<and>
   length (num_value_sites bare_record) < 2 ^ 32 \<and>
   prf_get_value_size_p example_env bare_record = (24, 1) \<and>
   buffer (prf_serialize_value example_env bare_record start) = buffer start + 24 \<and>
   effects (prf_serialize_value example_env bare_record start) =
     [Memcpy 0xffffc90000000000 (ValueData \<lparr>total_size = 24, num_value_kinds = 1\<rparr>) 8,
      StoreKind 0xffffc90000000008 0, StoreNumValueSites 0xffffc90000000008 3]"
proof -
  have a: "values_ptr bare_record = None" "length (num_value_sites bare_record) < 2 ^ 32"
    by (simp_all add: bare_record_def)
  have b: "present_kinds bare_record \<noteq> []" by (simp add: bare_record_present)
  have r: "records_size example_env [(0, 3)] = 16"
    by (simp add: records_size_def prf_get_value_record_size_def example_env_simps)
  show ?thesis
    using absent_nodes_bare_records [OF a(1) b a(2), of example_env start] a b
    by (simp add: bare_record_present r example_env_simps start_def prod_eq_iff)
qed

subsection \<open>The lock\<close>

lemma extends_quietlyI:
  "es' = es @ new \<Longrightarrow> filter is_lock_op new = [] \<Longrightarrow> extends_quietly es es'"
  by (simp add: extends_quietly_def)

lemma extends_quietlyD:
  "extends_quietly es es' \<Longrightarrow> \<exists>new. es' = es @ new \<and> filter is_lock_op new = []"
  unfolding extends_quietly_def by (metis append_take_drop_id)

lemma extends_quietly_refl [simp]: "extends_quietly es es"
  by (simp add: extends_quietly_def)

lemma extends_quietly_trans:
  assumes "extends_quietly a b" and "extends_quietly b c"
  shows "extends_quietly a c"
proof -
  obtain m where m: "b = a @ m" "filter is_lock_op m = []"
    using extends_quietlyD [OF assms(1)] by blast
  obtain n where n: "c = b @ n" "filter is_lock_op n = []"
    using extends_quietlyD [OF assms(2)] by blast
  show ?thesis
    by (rule extends_quietlyI [of _ _ "m @ n"]) (simp_all add: m n)
qed

lemma extends_quietly_snoc:
  "\<not> is_lock_op e \<Longrightarrow> extends_quietly es es' \<Longrightarrow> extends_quietly es (es' @ [e])"
  by (rule extends_quietly_trans [of _ es']) (simp_all add: extends_quietly_def)

lemma quiet_copy_buffer: "extends_quietly (effects w) (effects (prf_copy_buffer w src sz))"
  by (simp add: prf_copy_buffer_def extends_quietly_snoc)

lemma quiet_fill_header: "extends_quietly (effects w) (effects (prf_fill_header env w))"
  by (simp add: prf_fill_header_def extends_quietly_snoc)

lemma quiet_copy_nodes:
  "extends_quietly (effects w) (effects (snd (copy_nodes env xs c w)))"
proof (induction xs arbitrary: c w)
  case Nil
  then show ?case by simp
next
  case (Cons x xs)
  show ?case
    using extends_quietly_trans [OF quiet_copy_buffer Cons.IH]
    by (simp add: Let_def)
qed

lemma quiet_serialize_site:
  "extends_quietly (effects w) (effects (serialize_site env nodes s counts n w))"
  using quiet_copy_nodes [of w env "nodes (s + n)" 0]
  by (simp add: serialize_site_def split_beta extends_quietly_snoc)

lemma quiet_fold:
  assumes "\<And>x w. extends_quietly (effects w) (effects (f x w))"
  shows "extends_quietly (effects w) (effects (fold f xs w))"
proof (induction xs arbitrary: w)
  case Nil
  then show ?case by simp
next
  case (Cons x xs)
  show ?case using extends_quietly_trans [OF assms Cons.IH] by simp
qed

lemma quiet_serialize_sites:
  "extends_quietly (effects w) (effects (serialize_sites env nodes s counts sites w))"
  unfolding serialize_sites_def by (rule quiet_fold) (rule quiet_serialize_site)

lemma quiet_serialize_record:
  "extends_quietly (effects w) (effects (snd (serialize_record env kind sites w)))"
  by (simp add: serialize_record_def Let_def extends_quietly_def)

lemma quiet_serialize_kinds:
  "extends_quietly (effects w) (effects (serialize_kinds env nodes xs kind s w))"
proof (induction xs arbitrary: kind s w)
  case Nil
  then show ?case by simp
next
  case (Cons sites rest)
  show ?case
  proof (cases "sites = 0")
    case True
    then show ?thesis using Cons.IH by simp
  next
    case False
    obtain counts w' where r: "serialize_record env kind sites w = (counts, w')"
      by (cases "serialize_record env kind sites w")
    have q: "extends_quietly (effects w) (effects w')"
      using quiet_serialize_record [of w env kind sites] r by simp
    show ?thesis
    proof (cases nodes)
      case None
      then show ?thesis
        using False r extends_quietly_trans [OF q Cons.IH] by simp
    next
      case (Some nd)
      have "extends_quietly (effects w) (effects (serialize_sites env nd s counts sites w'))"
        using extends_quietly_trans [OF q quiet_serialize_sites] .
      then show ?thesis
        using False r Some extends_quietly_trans [OF _ Cons.IH] by simp
    qed
  qed
qed

lemma quiet_serialize_value:
  "extends_quietly (effects w) (effects (prf_serialize_value env p w))"
  using extends_quietly_trans [OF quiet_copy_buffer quiet_serialize_kinds]
  by (simp add: prf_serialize_value_def split_beta)

lemma quiet_serialize_values:
  "extends_quietly (effects w) (effects (prf_serialize_values env w))"
  unfolding prf_serialize_values_def by (rule quiet_fold) (rule quiet_serialize_value)

text \<open>
  The effects of \<^verbatim>\<open>prf_serialize\<close>: the lock is taken, then come effects that leave the
  lock alone, then the lock is released with the flags it returned.
\<close>

lemma prf_serialize_effects:
  "\<exists>body. effects (final (prf_serialize env vzalloc p)) =
      Lock (prf_lock_flags env) # body @ [Unlock (prf_lock_flags env)] \<and>
      filter is_lock_op body = []"
proof (cases "vzalloc (prf_buffer_size env) = 0")
  case True
  then show ?thesis by (simp add: prf_serialize_def Let_def)
next
  case False
  let ?f = "prf_lock_flags env"
  let ?w0 = "\<lparr>buffer = vzalloc (prf_buffer_size env), effects = [Lock ?f]\<rparr>"
  let ?w1 = "prf_fill_header env ?w0"
  let ?w2 = "prf_copy_buffer ?w1 (Section (llvm_prf_data_start env)) (prf_data_size env)"
  let ?w3 = "prf_copy_buffer ?w2 (Section (llvm_prf_cnts_start env)) (prf_cnts_size env)"
  let ?w4 = "prf_copy_buffer ?w3 (Section (llvm_prf_names_start env)) (prf_names_size env)"
  let ?w5 = "?w4\<lparr>buffer := buffer ?w4 + prf_get_padding env (prf_names_size env)\<rparr>"
  let ?w6 = "prf_serialize_values env ?w5"
  have "extends_quietly (effects ?w0) (effects ?w1)" by (rule quiet_fill_header)
  then have "extends_quietly (effects ?w0) (effects ?w2)"
    by (rule extends_quietly_trans) (rule quiet_copy_buffer)
  then have "extends_quietly (effects ?w0) (effects ?w3)"
    by (rule extends_quietly_trans) (rule quiet_copy_buffer)
  then have "extends_quietly (effects ?w0) (effects ?w4)"
    by (rule extends_quietly_trans) (rule quiet_copy_buffer)
  then have "extends_quietly (effects ?w0) (effects ?w5)" by simp
  then have "extends_quietly (effects ?w0) (effects ?w6)"
    by (rule extends_quietly_trans) (rule quiet_serialize_values)
  then have "\<exists>new. effects ?w6 = effects ?w0 @ new \<and> filter is_lock_op new = []"
    by (rule extends_quietlyD)
  then obtain body where b: "effects ?w6 = [Lock ?f] @ body" "filter is_lock_op body = []"
    by auto
  have "effects (final (prf_serialize env vzalloc p)) = effects ?w6 @ [Unlock ?f]"
    using False by (simp add: prf_serialize_def Let_def)
  then show ?thesis using b by simp
qed

lemma guarded_quiet:
  "filter is_lock_op body = [] \<Longrightarrow> guarded True (body @ rest) = guarded True rest"
proof (induction body)
  case Nil
  then show ?case by simp
next
  case (Cons e body)
  then show ?case by (cases e) (simp_all split: if_splits)
qed

text \<open>
  C10. Whatever the allocation does, the effects of \<^verbatim>\<open>prf_serialize\<close> hold one release
  of the lock: it is the last effect, it follows the one acquisition, which is the first
  effect, and it passes the flags that the acquisition returned.
\<close>

theorem prf_serialize_unlocks_once:
  "filter is_lock_op (effects (final (prf_serialize env vzalloc p))) =
     [Lock (prf_lock_flags env), Unlock (prf_lock_flags env)] \<and>
   hd (effects (final (prf_serialize env vzalloc p))) = Lock (prf_lock_flags env) \<and>
   last (effects (final (prf_serialize env vzalloc p))) = Unlock (prf_lock_flags env)"
proof -
  obtain body where
    "effects (final (prf_serialize env vzalloc p)) =
       Lock (prf_lock_flags env) # body @ [Unlock (prf_lock_flags env)]"
    "filter is_lock_op body = []"
    using prf_serialize_effects by blast
  then show ?thesis by simp
qed

subsection \<open>A reset during a snapshot\<close>

lemma lock_ok_append:
  "lock_ok h (a @ b) = (lock_ok h a \<and> lock_ok (holder_after h a) b)"
  by (induction h a rule: lock_ok.induct) simp_all

lemma holder_after_append:
  "holder_after h (a @ b) = holder_after (holder_after h a) b"
  by (induction h a rule: holder_after.induct) simp_all

lemma quiet_thread:
  "filter is_lock_op qs = [] \<Longrightarrow>
   lock_ok h (map (Pair t) qs) \<and> holder_after h (map (Pair t) qs) = h"
proof (induction qs)
  case Nil
  then show ?case by simp
next
  case (Cons e qs)
  then show ?case by (cases e) (simp_all split: if_splits)
qed

lemma quiet_take: "filter is_lock_op qs = [] \<Longrightarrow> filter is_lock_op (take n qs) = []"
  by (auto simp: filter_empty_conv dest: in_set_takeD)

lemma run_of_reset_during:
  "run_of Snapshot (reset_during k es rs) = es \<and> run_of Reset (reset_during k es rs) = rs"
proof -
  have same: "filter (\<lambda>(t', e). t' = t) (map (Pair t) xs) = map (Pair t) xs"
    for t :: thread and xs :: "effect list"
    by (induction xs) simp_all
  have other: "t \<noteq> u \<Longrightarrow> filter (\<lambda>(t', e). t' = t) (map (Pair u) xs) = []"
    for t u :: thread and xs :: "effect list"
    by (induction xs) simp_all
  have proj: "map snd (map (Pair t) xs) = xs" for t :: thread and xs :: "effect list"
    by (simp add: comp_def)
  have "map snd (map (Pair Snapshot) (take k es)) @ map snd (map (Pair Snapshot) (drop k es)) = es"
    unfolding proj by simp
  then show ?thesis
    by (simp add: run_of_def reset_during_def same other proj del: map_map)
qed

text \<open>
  A reset fits everywhere into a snapshot: the schedule obeys the lock, and the reset runs
  while the snapshot holds the lock unless it comes first or last.
\<close>

lemma reset_during_snapshot:
  assumes es: "es = Lock f # body @ [Unlock f]" "filter is_lock_op body = []"
    and rs: "filter is_lock_op rs = []"
  shows "lock_ok None (reset_during k es rs)"
    and "0 < k \<Longrightarrow> k < length es \<Longrightarrow>
      holder_after None (map (Pair Snapshot) (take k es)) = Some Snapshot"
proof -
  have whole: "lock_ok None (map (Pair Snapshot) es)"
    using quiet_thread [OF es(2), of "Some Snapshot" Snapshot]
    by (simp add: es(1) lock_ok_append)
  have "lock_ok None (map (Pair Snapshot) (take k es @ drop k es))"
    using whole by simp
  then have split: "lock_ok None (map (Pair Snapshot) (take k es)) \<and>
      lock_ok (holder_after None (map (Pair Snapshot) (take k es)))
        (map (Pair Snapshot) (drop k es))"
    unfolding map_append lock_ok_append .
  show "lock_ok None (reset_during k es rs)"
    using split quiet_thread [OF rs, of "holder_after None (map (Pair Snapshot) (take k es))" Reset]
    by (simp add: reset_during_def lock_ok_append holder_after_append)
  show "holder_after None (map (Pair Snapshot) (take k es)) = Some Snapshot"
    if kpos: "0 < k" and klt: "k < length es"
  proof -
    obtain j where j: "k = Suc j" using kpos by (cases k) simp_all
    have "j \<le> length body" using klt by (simp add: es(1) j)
    then have "take k es = Lock f # take j body" by (simp add: es(1) j)
    then show ?thesis
      using quiet_thread [OF quiet_take [OF es(2), of j], of "Some Snapshot" Snapshot]
      by simp
  qed
qed

text \<open>
  After a successful allocation the first effects of \<^verbatim>\<open>prf_serialize\<close> are the acquisition
  of the lock, the store of the header and the copies of the three sections.
\<close>

lemma prf_serialize_prefix:
  assumes "vzalloc (prf_buffer_size env) \<noteq> 0"
  shows "take 5 (effects (final (prf_serialize env vzalloc p))) =
    [Lock (prf_lock_flags env),
     StoreHeader (vzalloc (prf_buffer_size env))
       (stored_header (last (effects (prf_fill_header env
          \<lparr>buffer = vzalloc (prf_buffer_size env), effects = []\<rparr>)))),
     Memcpy (vzalloc (prf_buffer_size env) + sizeof_llvm_prf_header env)
       (Section (llvm_prf_data_start env)) (prf_data_size env),
     Memcpy (vzalloc (prf_buffer_size env) + sizeof_llvm_prf_header env + prf_data_size env)
       (Section (llvm_prf_cnts_start env)) (prf_cnts_size env),
     Memcpy (vzalloc (prf_buffer_size env) + sizeof_llvm_prf_header env + prf_data_size env +
         prf_cnts_size env)
       (Section (llvm_prf_names_start env)) (prf_names_size env)]"
proof -
  let ?f = "prf_lock_flags env"
  let ?w0 = "\<lparr>buffer = vzalloc (prf_buffer_size env), effects = [Lock ?f]\<rparr>"
  let ?w1 = "prf_fill_header env ?w0"
  let ?w2 = "prf_copy_buffer ?w1 (Section (llvm_prf_data_start env)) (prf_data_size env)"
  let ?w3 = "prf_copy_buffer ?w2 (Section (llvm_prf_cnts_start env)) (prf_cnts_size env)"
  let ?w4 = "prf_copy_buffer ?w3 (Section (llvm_prf_names_start env)) (prf_names_size env)"
  let ?w5 = "?w4\<lparr>buffer := buffer ?w4 + prf_get_padding env (prf_names_size env)\<rparr>"
  let ?w6 = "prf_serialize_values env ?w5"
  have e5: "effects ?w5 =
    [Lock ?f,
     StoreHeader (vzalloc (prf_buffer_size env))
       (stored_header (last (effects (prf_fill_header env
          \<lparr>buffer = vzalloc (prf_buffer_size env), effects = []\<rparr>)))),
     Memcpy (vzalloc (prf_buffer_size env) + sizeof_llvm_prf_header env)
       (Section (llvm_prf_data_start env)) (prf_data_size env),
     Memcpy (vzalloc (prf_buffer_size env) + sizeof_llvm_prf_header env + prf_data_size env)
       (Section (llvm_prf_cnts_start env)) (prf_cnts_size env),
     Memcpy (vzalloc (prf_buffer_size env) + sizeof_llvm_prf_header env + prf_data_size env +
         prf_cnts_size env)
       (Section (llvm_prf_names_start env)) (prf_names_size env)]"
    by (simp add: prf_fill_header_def prf_copy_buffer_def)
  obtain new where n: "effects ?w6 = effects ?w5 @ new"
    using extends_quietlyD [OF quiet_serialize_values] by blast
  have "effects (final (prf_serialize env vzalloc p)) = effects ?w6 @ [Unlock ?f]"
    using assms by (simp add: prf_serialize_def Let_def)
  then show ?thesis unfolding n e5 by simp
qed

text \<open>
  C3, as the code has it. \<^verbatim>\<open>prf_reset_write\<close> returns \<^verbatim>\<open>len\<close>, and its one effect is a
  \<^verbatim>\<open>memset\<close> of \<^verbatim>\<open>prf_cnts_size()\<close> zero bytes at the start of the counters; it does not
  touch the lock. Every access to memory of \<^verbatim>\<open>prf_serialize\<close> lies between its
  acquisition and its release of the lock. The lock does not hold up the reset: for every
  \<open>k\<close>, the schedule in which the reset runs after the first \<open>k\<close> effects of the snapshot
  obeys the lock and is made of the effects of the two calls. When the reset comes neither
  first nor last, it runs while the snapshot holds the lock. After a successful allocation
  the effect of the snapshot at index 3 is the copy of the counters, so that with \<open>k = 3\<close>
  the counters are cleared right before they are copied and with \<open>k = 4\<close> right after.
\<close>

theorem reset_takes_no_lock:
  "fst (prf_reset_write env len) = len \<and>
   snd (prf_reset_write env len) = [Memset (llvm_prf_cnts_start env) 0 (prf_cnts_size env)] \<and>
   filter is_lock_op (snd (prf_reset_write env len)) = [] \<and>
   guarded False (effects (final (prf_serialize env vzalloc p))) \<and>
   run_of Snapshot
     (reset_during k (effects (final (prf_serialize env vzalloc p)))
        (snd (prf_reset_write env len))) =
     effects (final (prf_serialize env vzalloc p)) \<and>
   run_of Reset
     (reset_during k (effects (final (prf_serialize env vzalloc p)))
        (snd (prf_reset_write env len))) =
     snd (prf_reset_write env len) \<and>
   lock_ok None
     (reset_during k (effects (final (prf_serialize env vzalloc p)))
        (snd (prf_reset_write env len))) \<and>
   (0 < k \<and> k < length (effects (final (prf_serialize env vzalloc p))) \<longrightarrow>
      holder_after None
        (map (Pair Snapshot) (take k (effects (final (prf_serialize env vzalloc p))))) =
        Some Snapshot) \<and>
   (vzalloc (prf_buffer_size env) \<noteq> 0 \<longrightarrow>
      4 < length (effects (final (prf_serialize env vzalloc p))) \<and>
      effects (final (prf_serialize env vzalloc p)) ! 3 =
        Memcpy (vzalloc (prf_buffer_size env) + sizeof_llvm_prf_header env + prf_data_size env)
          (Section (llvm_prf_cnts_start env)) (prf_cnts_size env))"
proof -
  let ?es = "effects (final (prf_serialize env vzalloc p))"
  let ?rs = "snd (prf_reset_write env len)"
  obtain body where es:
    "?es = Lock (prf_lock_flags env) # body @ [Unlock (prf_lock_flags env)]"
    "filter is_lock_op body = []"
    using prf_serialize_effects by blast
  have rs: "filter is_lock_op ?rs = []" by (simp add: prf_reset_write_def)
  have g: "guarded False ?es" using es by (simp add: guarded_quiet)
  have copy: "4 < length ?es \<and>
      ?es ! 3 =
        Memcpy (vzalloc (prf_buffer_size env) + sizeof_llvm_prf_header env + prf_data_size env)
          (Section (llvm_prf_cnts_start env)) (prf_cnts_size env)"
    if ok: "vzalloc (prf_buffer_size env) \<noteq> 0"
  proof -
    note pre = prf_serialize_prefix [where vzalloc = vzalloc and env = env and p = p, OF ok]
    have a: "take 5 ?es ! 3 = ?es ! 3" by simp
    have b: "take 5 ?es ! 3 =
        Memcpy (vzalloc (prf_buffer_size env) + sizeof_llvm_prf_header env + prf_data_size env)
          (Section (llvm_prf_cnts_start env)) (prf_cnts_size env)"
      unfolding pre by simp
    have "length (take 5 ?es) = 5" unfolding pre by simp
    then have "4 < length ?es" by simp
    then show ?thesis using a b by simp
  qed
  show ?thesis
    using g rs copy run_of_reset_during [of k ?es ?rs]
      reset_during_snapshot(1) [OF es rs, of k] reset_during_snapshot(2) [OF es rs, of k]
    by (simp add: prf_reset_write_def)
qed

theorem reset_takes_no_lock_witness:
  "(0 :: nat) < 3 \<and>
   3 < length (effects (final (prf_serialize example_env (\<lambda>sz. 0xffffc90000000000)
         \<lparr>p_buffer = 0, p_size = 0\<rparr>))) \<and>
   lock_ok None
     (reset_during 3
        (effects (final (prf_serialize example_env (\<lambda>sz. 0xffffc90000000000)
           \<lparr>p_buffer = 0, p_size = 0\<rparr>)))
        (snd (prf_reset_write example_env 4))) \<and>
   map fst
     (reset_during 3
        (effects (final (prf_serialize example_env (\<lambda>sz. 0xffffc90000000000)
           \<lparr>p_buffer = 0, p_size = 0\<rparr>)))
        (snd (prf_reset_write example_env 4))) =
     [Snapshot, Snapshot, Snapshot, Reset, Snapshot, Snapshot, Snapshot] \<and>
   map snd
     (drop 3 (reset_during 3
        (effects (final (prf_serialize example_env (\<lambda>sz. 0xffffc90000000000)
           \<lparr>p_buffer = 0, p_size = 0\<rparr>)))
        (snd (prf_reset_write example_env 4)))) =
     [Memset 0xffffffff82001000 0 16,
      Memcpy 0xffffc90000000080 (Section 0xffffffff82001000) 16,
      Memcpy 0xffffc90000000090 (Section 0xffffffff82002000) 5,
      Unlock 0x246] \<and>
   holder_after None
     (map (Pair Snapshot)
        (take 3 (effects (final (prf_serialize example_env (\<lambda>sz. 0xffffc90000000000)
           \<lparr>p_buffer = 0, p_size = 0\<rparr>))))) = Some Snapshot"
proof -
  let ?es = "effects (final (prf_serialize example_env (\<lambda>sz. 0xffffc90000000000)
    \<lparr>p_buffer = 0, p_size = 0\<rparr>))"
  obtain h where es: "?es =
     [Lock 0x246, StoreHeader 0xffffc90000000000 h,
      Memcpy 0xffffc90000000050 (Section 0xffffffff82000000) 48,
      Memcpy 0xffffc90000000080 (Section 0xffffffff82001000) 16,
      Memcpy 0xffffc90000000090 (Section 0xffffffff82002000) 5,
      Unlock 0x246]"
    by (simp add: prf_serialize_def Let_def prf_fill_header_def prf_copy_buffer_def
        prf_serialize_values_def example_env_def)
  have rs: "snd (prf_reset_write example_env 4) = [Memset 0xffffffff82001000 0 16]"
    by (simp add: prf_reset_write_def example_env_def)
  show ?thesis
    using reset_takes_no_lock [of example_env 4 "\<lambda>sz. 0xffffc90000000000"
        "\<lparr>p_buffer = 0, p_size = 0\<rparr>" 3]
    unfolding es rs by (simp add: reset_during_def)
qed

text \<open>
  C3, as the claim has it, fails: the \<^verbatim>\<open>memset\<close> of a reset runs without the lock.
\<close>

theorem reset_not_guarded:
  "\<not> guarded False (snd (prf_reset_write example_env 4))"
  by (simp add: prf_reset_write_def)

subsection \<open>Failure of the allocation\<close>

text \<open>
  C7. \<^verbatim>\<open>prf_serialize\<close> returns \<^verbatim>\<open>-ENOMEM\<close> when \<^verbatim>\<open>vzalloc\<close> returns the null pointer
  and 0 otherwise. When it fails, its only effects are taking and releasing the lock: no
  header is stored and nothing is copied; \<^verbatim>\<open>prf_open\<close> then frees the private data,
  leaves \<^verbatim>\<open>file->private_data\<close> as it was and returns the error. When it succeeds,
  \<^verbatim>\<open>prf_open\<close> returns 0 and hands the filled private data to the file.
\<close>

theorem snapshot_fails_iff_allocation_fails:
  "err (prf_serialize env vzalloc p) =
     (if vzalloc (prf_buffer_size env) = 0 then - ENOMEM else 0) \<and>
   (err (prf_serialize env vzalloc p) \<noteq> 0) = (vzalloc (prf_buffer_size env) = 0) \<and>
   (vzalloc (prf_buffer_size env) = 0 \<longrightarrow>
      effects (final (prf_serialize env vzalloc p)) =
        [Lock (prf_lock_flags env), Unlock (prf_lock_flags env)] \<and>
      (kzalloc \<noteq> 0 \<longrightarrow>
         prf_open env kzalloc vzalloc private_data =
           (- ENOMEM, private_data,
            [Lock (prf_lock_flags env), Unlock (prf_lock_flags env), Kfree kzalloc]))) \<and>
   (vzalloc (prf_buffer_size env) \<noteq> 0 \<and> kzalloc \<noteq> 0 \<longrightarrow>
      fst (prf_open env kzalloc vzalloc private_data) = 0 \<and>
      fst (snd (prf_open env kzalloc vzalloc private_data)) =
        Some \<lparr>p_buffer = vzalloc (prf_buffer_size env), p_size = prf_buffer_size env\<rparr>)"
  by (simp add: prf_serialize_def prf_open_def Let_def ENOMEM_def)

theorem snapshot_fails_iff_allocation_fails_witness:
  "err (prf_serialize example_env (\<lambda>sz. 0) \<lparr>p_buffer = 0, p_size = 0\<rparr>) = - ENOMEM \<and>
   effects (final (prf_serialize example_env (\<lambda>sz. 0) \<lparr>p_buffer = 0, p_size = 0\<rparr>)) =
     [Lock 0x246, Unlock 0x246] \<and>
   prf_open example_env 0xffff888000001000 (\<lambda>sz. 0) None =
     (- ENOMEM, None, [Lock 0x246, Unlock 0x246, Kfree 0xffff888000001000]) \<and>
   err (prf_serialize example_env (\<lambda>sz. 0xffffc90000000000) \<lparr>p_buffer = 0, p_size = 0\<rparr>) = 0 \<and>
   fst (prf_open example_env 0xffff888000001000 (\<lambda>sz. 0xffffc90000000000) None) = 0"
  using
    snapshot_fails_iff_allocation_fails
      [of example_env "\<lambda>sz. 0" "\<lparr>p_buffer = 0, p_size = 0\<rparr>" "0xffff888000001000" None]
    snapshot_fails_iff_allocation_fails
      [of example_env "\<lambda>sz. 0xffffc90000000000" "\<lparr>p_buffer = 0, p_size = 0\<rparr>"
        "0xffff888000001000" None]
  by (simp add: example_env_simps)

lemma prf_buffer_size_unat:
  assumes "unat (sizeof_llvm_prf_header env) + unat (prf_data_size env) +
      unat (prf_cnts_size env) + unat (prf_names_size env) +
      unat (prf_get_padding env (prf_names_size env)) + unat (prf_get_value_size env) < 2 ^ 64"
  shows "unat (prf_buffer_size env) =
      unat (sizeof_llvm_prf_header env) + unat (prf_data_size env) +
      unat (prf_cnts_size env) + unat (prf_names_size env) +
      unat (prf_get_padding env (prf_names_size env)) + unat (prf_get_value_size env)"
proof -
  have u: "unat (ucast (prf_get_value_size env) :: u64) = unat (prf_get_value_size env)"
  proof -
    have "unat (prf_get_value_size env) < 2 ^ 32"
      using unsigned_less [of "prf_get_value_size env", where ?'a = nat] by simp
    then have "unat (prf_get_value_size env) < 2 ^ 64" by simp
    then show ?thesis by (simp add: unsigned_ucast_eq take_bit_nat_eq_self)
  qed
  show ?thesis
    using assms unfolding prf_buffer_size_def
    by (simp add: unat_word_ariths u mod_simps)
qed

text \<open>
  C9. When the allocation fails, \<^verbatim>\<open>prf_serialize\<close> has already stored the total size:
  the caller finds \<^verbatim>\<open>-ENOMEM\<close>, a null \<^verbatim>\<open>buffer\<close> and the computed \<^verbatim>\<open>size\<close>, which is
  not zero when the header has a size and the sum does not wrap around in 64 bits; a
  zero-filled structure has been changed.
\<close>

theorem allocation_failure_keeps_size:
  assumes "vzalloc (prf_buffer_size env) = 0"
    and "sizeof_llvm_prf_header env \<noteq> 0"
    and "unat (sizeof_llvm_prf_header env) + unat (prf_data_size env) +
      unat (prf_cnts_size env) + unat (prf_names_size env) +
      unat (prf_get_padding env (prf_names_size env)) + unat (prf_get_value_size env) < 2 ^ 64"
  shows "err (prf_serialize env vzalloc p) = - ENOMEM \<and>
    p_buffer (priv (prf_serialize env vzalloc p)) = 0 \<and>
    p_size (priv (prf_serialize env vzalloc p)) = prf_buffer_size env \<and>
    p_size (priv (prf_serialize env vzalloc p)) \<noteq> 0 \<and>
    priv (prf_serialize env vzalloc \<lparr>p_buffer = 0, p_size = 0\<rparr>) \<noteq> \<lparr>p_buffer = 0, p_size = 0\<rparr>"
proof -
  have "unat (sizeof_llvm_prf_header env) \<noteq> 0"
    using assms(2) by (simp add: unat_eq_zero)
  then have "unat (prf_buffer_size env) \<noteq> 0"
    using prf_buffer_size_unat [OF assms(3)] by simp
  then have "prf_buffer_size env \<noteq> 0" by auto
  then show ?thesis
    using assms(1) by (simp add: prf_serialize_def Let_def)
qed

lemma example_env_value_size: "prf_get_value_size example_env = 0"
  by (simp add: prf_get_value_size_def example_env_def)

lemma example_env_buffer_size: "prf_buffer_size example_env = 152"
  by (simp add: prf_buffer_size_def example_env_value_size example_env_simps)

theorem allocation_failure_keeps_size_witness:
  "err (prf_serialize example_env (\<lambda>sz. 0) \<lparr>p_buffer = 0, p_size = 0\<rparr>) = - ENOMEM \<and>
   p_buffer (priv (prf_serialize example_env (\<lambda>sz. 0) \<lparr>p_buffer = 0, p_size = 0\<rparr>)) = 0 \<and>
   p_size (priv (prf_serialize example_env (\<lambda>sz. 0) \<lparr>p_buffer = 0, p_size = 0\<rparr>)) = 152"
proof -
  have a: "(\<lambda>sz :: u64. 0 :: u64) (prf_buffer_size example_env) = 0" by simp
  have b: "sizeof_llvm_prf_header example_env \<noteq> 0" by (simp add: example_env_simps)
  have c: "unat (sizeof_llvm_prf_header example_env) + unat (prf_data_size example_env) +
      unat (prf_cnts_size example_env) + unat (prf_names_size example_env) +
      unat (prf_get_padding example_env (prf_names_size example_env)) +
      unat (prf_get_value_size example_env) < 2 ^ 64"
    by (simp add: example_env_simps example_env_value_size)
  show ?thesis
    using allocation_failure_keeps_size [OF a b c, of "\<lparr>p_buffer = 0, p_size = 0\<rparr>"]
    by (simp add: example_env_buffer_size)
qed

subsection \<open>The header\<close>

text \<open>
  C8, as the code has it. \<^verbatim>\<open>prf_fill_header\<close> stores one header at the cursor and moves
  the cursor by the size of the header. The header holds the magic number, the version
  with the variant flag, zero in both padding fields, the start addresses of the counters
  and of the names, and the last value kind; its three size fields hold what
  \<^verbatim>\<open>prf_data_count\<close>, \<^verbatim>\<open>prf_cnts_count\<close> and \<^verbatim>\<open>prf_names_count\<close> return, the numbers of
  entries of the sections.
\<close>

theorem header_holds_entry_counts:
  "effects (prf_fill_header env w) =
     effects w @
       [StoreHeader (buffer w) (stored_header (last (effects (prf_fill_header env w))))] \<and>
   buffer (prf_fill_header env w) = buffer w + sizeof_llvm_prf_header env \<and>
   stored_header (last (effects (prf_fill_header env w))) =
     \<lparr>magic = LLVM_PRF_MAGIC env,
      version = LLVM_PRF_VARIANT_MASK_IR env OR LLVM_PRF_VERSION env,
      data_size = prf_data_count env,
      padding_bytes_before_counters = 0,
      counters_size = prf_cnts_count env,
      padding_bytes_after_counters = 0,
      names_size = prf_names_count env,
      counters_delta = llvm_prf_cnts_start env,
      names_delta = llvm_prf_names_start env,
      value_kind_last = LLVM_PRF_IPVK_LAST env\<rparr>"
  by (simp add: prf_fill_header_def)

text \<open>
  C8, as the claim has it, fails: the size fields of the header are not the sizes of the
  sections that enter the size of the buffer. With one record of 48 bytes and two counters
  of 8 bytes, the header says 1 and 2.
\<close>

theorem header_sizes_not_section_sizes:
  "\<not> (data_size (stored_header (last (effects (prf_fill_header example_env start)))) =
        prf_data_size example_env \<and>
      counters_size (stored_header (last (effects (prf_fill_header example_env start)))) =
        prf_cnts_size example_env \<and>
      names_size (stored_header (last (effects (prf_fill_header example_env start)))) =
        prf_names_size example_env)"
  by (simp add: prf_fill_header_def example_env_def)

subsection \<open>The whole buffer\<close>

lemma long_env_simps:
  "sizeof_llvm_prf_header long_env = 80"
  "sizeof_llvm_prf_value_data long_env = 8"
  "sizeof_llvm_prf_value_node_data long_env = 16"
  "prf_get_value_record_header_size long_env = 8"
  "prf_get_value_record_site_count_size long_env 1 = 8"
  "prf_data_size long_env = 48"
  "prf_cnts_size long_env = 16"
  "prf_names_size long_env = 5"
  "prf_get_padding long_env 5 = 3"
  "prf_records long_env = [long_record]"
  by (simp_all add: long_env_def example_env_def)

lemma long_env_buffer_size: "prf_buffer_size long_env = 4272"
  by (simp add: prf_buffer_size_def prf_get_value_size_def long_env_simps
      long_record_size [of long_env])

text \<open>
  C6. With a record whose site has a list of 300 nodes, the size of the buffer is the sum
  of the sizes of the header, of the three sections, of the padding and of the result of the
  size pass, 4272 bytes; \<^verbatim>\<open>prf_serialize\<close> succeeds and its cursor ends 4256 bytes after
  the start of the buffer.
\<close>

theorem cursor_ends_before_total_size:
  "prf_buffer_size long_env = 80 + 48 + 16 + 5 + 3 + 4120 \<and>
   err (prf_serialize long_env (\<lambda>sz. 0xffffc90000000000) \<lparr>p_buffer = 0, p_size = 0\<rparr>) = 0 \<and>
   p_size (priv (prf_serialize long_env (\<lambda>sz. 0xffffc90000000000)
     \<lparr>p_buffer = 0, p_size = 0\<rparr>)) = 4272 \<and>
   buffer (final (prf_serialize long_env (\<lambda>sz. 0xffffc90000000000)
     \<lparr>p_buffer = 0, p_size = 0\<rparr>)) -
   p_buffer (priv (prf_serialize long_env (\<lambda>sz. 0xffffc90000000000)
     \<lparr>p_buffer = 0, p_size = 0\<rparr>)) = 4256"
  by (simp add: prf_serialize_def Let_def long_env_buffer_size prf_fill_header_def
      prf_copy_buffer_def prf_serialize_values_def long_env_simps
      long_record_written(1) [of long_env])

subsection \<open>The two passes against the size contract\<close>

lemma size_sites_short:
  assumes "\<forall>i. length (nd i) \<le> 255"
  shows "fold (\<lambda>n. size_site env nd s (of_nat n)) ns sz =
    sz + of_nat (sum_list (map (\<lambda>n. min (length (nd (s + of_nat n))) 255 *
                      unat (sizeof_llvm_prf_value_node_data env)) ns))"
proof (induction ns arbitrary: sz)
  case Nil
  then show ?case by simp
next
  case (Cons n ns)
  have "min (length (nd i)) 255 = length (nd i)" for i
    using assms by (simp add: min_def)
  then show ?case
    using assms by (simp add: Cons.IH) (simp add: size_site_eq algebra_simps)
qed

lemma serialize_sites_buffer:
  "buffer (fold (\<lambda>n. serialize_site env nd s counts (of_nat n)) ns w) =
    buffer w + of_nat (sum_list (map (\<lambda>n. min (length (nd (s + of_nat n))) 255 *
                      unat (sizeof_llvm_prf_value_node_data env)) ns))"
proof (induction ns arbitrary: w)
  case Nil
  then show ?case by simp
next
  case (Cons n ns)
  show ?case
    by (simp add: Cons.IH serialize_site_buffer algebra_simps)
qed

lemma size_kinds_short:
  assumes "case nodes of None \<Rightarrow> True | Some nd \<Rightarrow> \<forall>i. length (nd i) \<le> 255"
  shows "fst (size_kinds env nodes xs (sz, kinds, s)) =
    sz + of_nat (spec_kinds_size env nodes xs s)"
proof (induction xs arbitrary: sz kinds s)
  case Nil
  then show ?case by simp
next
  case (Cons sites rest)
  show ?case
    using assms Cons.IH
    by (simp add: Let_def prf_get_value_record_size_def ucast_down size_sites_def
        size_sites_short algebra_simps split: option.splits)
qed

lemma size_kinds_kinds:
  "fst (snd (size_kinds env nodes xs (sz, kinds, s))) =
     kinds + of_nat (length (filter (\<lambda>sites. sites \<noteq> 0) xs))"
proof (cases nodes)
  case None
  show ?thesis unfolding None
    by (induction xs arbitrary: sz kinds s) (simp_all add: Let_def)
next
  case (Some nd)
  show ?thesis unfolding Some
    by (induction xs arbitrary: sz kinds s) (simp_all add: Let_def)
qed

lemma serialize_kinds_buffer:
  "buffer (serialize_kinds env nodes xs kind s w) =
     buffer w + of_nat (spec_kinds_size env nodes xs s)"
proof (cases nodes)
  case None
  show ?thesis unfolding None
    by (induction xs arbitrary: kind s w)
      (simp_all add: serialize_record_def Let_def algebra_simps)
next
  case (Some nd)
  show ?thesis unfolding Some
    by (induction xs arbitrary: kind s w)
      (simp_all add: serialize_record_def Let_def serialize_sites_def
        serialize_sites_buffer algebra_simps)
qed

lemma spec_kinds_size_0:
  assumes "prf_get_value_record_header_size env \<noteq> 0"
  shows "(spec_kinds_size env nodes xs s = 0) = (filter (\<lambda>sites. sites \<noteq> 0) xs = [])"
proof (induction xs arbitrary: s)
  case Nil
  then show ?case by simp
next
  case (Cons sites rest)
  have "unat (prf_get_value_record_header_size env) \<noteq> 0"
    using assms by (simp add: unat_eq_zero)
  then show ?case by (simp add: Cons.IH)
qed

lemma of_nat_u32_eq_0: "n < 2 ^ 32 \<Longrightarrow> ((of_nat n :: u32) = 0) = (n = 0)"
  by (simp add: word_unat_eq_iff unsigned_of_nat take_bit_nat_eq_self)

lemma unat_of_nat_u32: "n < 2 ^ 32 \<Longrightarrow> unat (of_nat n :: u32) = n"
  by (simp add: unsigned_of_nat take_bit_nat_eq_self)

text \<open>
  The write pass always advances the cursor by the bytes of the size contract, whatever the
  lengths of the lists.
\<close>

lemma write_pass_meets_contract:
  assumes "prf_get_value_record_header_size env \<noteq> 0"
    and "length (num_value_sites p) < 2 ^ 32"
  shows "buffer (prf_serialize_value env p w) = buffer w + of_nat (spec_value_size env p)"
proof -
  let ?n = "length (filter (\<lambda>sites. sites \<noteq> 0) (num_value_sites p))"
  have "?n < 2 ^ 32"
    using length_filter_le [of _ "num_value_sites p"] assms(2) by (rule le_less_trans)
  then have k: "((of_nat ?n :: u32) = 0) = (?n = 0)" by (rule of_nat_u32_eq_0)
  have kinds: "snd (prf_get_value_size_p env p) = of_nat ?n"
    using size_kinds_kinds [of env "values_ptr p" "num_value_sites p" 0 0 0]
    by (simp add: prf_get_value_size_p_def split_beta)
  show ?thesis
    using spec_kinds_size_0 [OF assms(1), of "values_ptr p" "num_value_sites p" 0]
    by (simp add: prf_serialize_value_def split_beta kinds k spec_value_size_def Let_def
        serialize_kinds_buffer prf_copy_buffer_def)
qed

text \<open>
  The size pass returns the bytes of the size contract when no list has more than 255 nodes
  and the contract fits into the 32 bits of the result.
\<close>

lemma size_pass_meets_contract:
  assumes "short_lists p" and "spec_value_size env p < 2 ^ 32"
  shows "unat (fst (prf_get_value_size_p env p)) = spec_value_size env p"
proof -
  let ?body = "spec_kinds_size env (values_ptr p) (num_value_sites p) 0"
  have s: "case values_ptr p of None \<Rightarrow> True | Some nd \<Rightarrow> \<forall>i. length (nd i) \<le> 255"
    using assms(1) by (simp add: short_lists_def)
  have sz: "fst (size_kinds env (values_ptr p) (num_value_sites p) (0, 0, 0)) = of_nat ?body"
    using size_kinds_short [OF s, of env "num_value_sites p" 0 0 0] by simp
  have b: "?body < 2 ^ 32"
    using assms(2) by (simp add: spec_value_size_def Let_def split: if_splits)
  show ?thesis
  proof (cases "?body = 0")
    case True
    then show ?thesis
      using sz by (simp add: prf_get_value_size_p_def split_beta spec_value_size_def)
  next
    case False
    then have t: "unat (sizeof_llvm_prf_value_data env) + ?body < 2 ^ 32"
      using assms(2) by (simp add: spec_value_size_def Let_def)
    have "fst (prf_get_value_size_p env p) =
        of_nat (unat (sizeof_llvm_prf_value_data env) + ?body)"
      using False sz of_nat_u32_eq_0 [OF b]
      by (simp add: prf_get_value_size_p_def split_beta ucast_down)
    then show ?thesis
      using False unat_of_nat_u32 [OF t] by (simp add: spec_value_size_def Let_def)
  qed
qed

text \<open>
  Hence the two passes agree on every record whose lists have at most 255 nodes: the
  returned size is the number of bytes by which the write pass moves the cursor.
\<close>

theorem passes_agree_on_short_lists:
  assumes "short_lists p"
    and "spec_value_size env p < 2 ^ 32"
    and "prf_get_value_record_header_size env \<noteq> 0"
    and "length (num_value_sites p) < 2 ^ 32"
  shows "ucast (fst (prf_get_value_size_p env p)) = buffer (prf_serialize_value env p w) - buffer w"
proof -
  have "(ucast (fst (prf_get_value_size_p env p)) :: u64) =
      of_nat (unat (fst (prf_get_value_size_p env p)))"
    by simp
  then show ?thesis
    using size_pass_meets_contract [OF assms(1,2)] write_pass_meets_contract [OF assms(3,4), of w]
    by simp
qed

lemma short_record_contract: "spec_value_size example_env short_record = 4152"
proof -
  have "[0..<2] = [0, 1 :: nat]" by (simp add: upt_conv_Cons)
  then show ?thesis
    by (simp add: spec_value_size_def short_record_def example_env_def)
qed

theorem passes_agree_on_short_lists_witness:
  "short_lists short_record \<and> spec_value_size example_env short_record < 2 ^ 32 \<and>
   prf_get_value_record_header_size example_env \<noteq> 0 \<and>
   length (num_value_sites short_record) < 2 ^ 32 \<and>
   fst (prf_get_value_size_p example_env short_record) = 4152 \<and>
   buffer (prf_serialize_value example_env short_record start) - buffer start = 4152"
proof -
  have a: "short_lists short_record" by (simp add: short_lists_def short_record_def)
  have b: "spec_value_size example_env short_record < 2 ^ 32"
    by (simp add: short_record_contract)
  have c: "prf_get_value_record_header_size example_env \<noteq> 0"
    by (simp add: example_env_simps)
  have d: "length (num_value_sites short_record) < 2 ^ 32" by (simp add: short_record_def)
  have "unat (fst (prf_get_value_size_p example_env short_record)) = 4152"
    using size_pass_meets_contract [OF a b] by (simp add: short_record_contract)
  then have e: "fst (prf_get_value_size_p example_env short_record) = 4152"
    by (simp add: word_unat_eq_iff)
  show ?thesis
    using passes_agree_on_short_lists [OF a b c d, of start] a b c d e by simp
qed

end
